theory Spec2Isabelle
  imports Complex_Main "HOL-Library.Char_ord" "HOL-Library.List_Lexorder"
begin

section \<open>The election dashboard: data model\<close>

text \<open>
  The program is one script, \<^verbatim>\<open>election.py\<close>. It reads a CSV file into a pandas
  DataFrame \<^verbatim>\<open>data\<close> and computes, from \<^verbatim>\<open>data\<close> and the two sidebar selections, the
  metrics of three tabs. The model follows the script expression by expression: every
  pandas operation the script calls is one definition, and every variable the script
  binds (\<^verbatim>\<open>party_data\<close>, \<^verbatim>\<open>const_data\<close>, \<^verbatim>\<open>party_totals\<close>, \<^verbatim>\<open>constituencies\<close>) is one
  definition named after it. Rendering (streamlit, plotly) is not modelled.

  A row of the CSV has the four columns the script reads. The column
  \<^verbatim>\<open>Total Votes\<close> is an integer column, which pandas stores as 64-bit signed integers:
  a value is an integer, and a sum of the column is taken modulo \<open>2 ^ 64\<close> (\<open>int64\<close>
  below).
\<close>

record row =
  Constituency :: string
  Candidate :: string
  Party :: string
  Total_Votes :: int

text \<open>
  A DataFrame is the list of its rows in order, each with its index label. A Series (one
  column) is the list of its values, each with the label of its row.
\<close>

type_synonym frame = "(nat \<times> row) list"
type_synonym 'a series = "(nat \<times> 'a) list"

text \<open>
  \<^verbatim>\<open>pd.read_csv(file_path)\<close> labels the rows 0, 1, 2, ... (a RangeIndex). The content
  of the file is the parameter.
\<close>

definition read_csv :: "row list \<Rightarrow> frame" where
  "read_csv rs = zip [0..<length rs] rs"

definition load_data :: "row list \<Rightarrow> frame" where
  "load_data file = read_csv file"

text \<open>Python exceptions the modelled expressions raise. Nothing in the script catches
  them: an exception ends the run of the script.\<close>

datatype exn = ValueError | OverflowError | KeyError

text \<open>
  A Python float (IEEE 754 binary64): a finite value, an infinity or NaN. A finite value
  is the rational number it denotes; the arithmetic operations round their exact result
  to the nearest binary64 value (\<open>fl64\<close> below).
\<close>

datatype pyfloat = Fin rat | PInf | NInf | NaN

text \<open>What a reduction of an integer Series returns: a (numpy) integer or a float.\<close>

datatype scalar = IntS int | FloatS pyfloat

subsection \<open>The pandas operations the script uses\<close>

text \<open>\<^verbatim>\<open>df[c]\<close>: the column \<open>c\<close> of a frame, with the frame's labels.\<close>

definition col :: "(row \<Rightarrow> 'a) \<Rightarrow> frame \<Rightarrow> 'a series" where
  "col c df = map (\<lambda>(i, r). (i, c r)) df"

text \<open>\<^verbatim>\<open>s == v\<close>: the boolean Series of the element-wise comparison.\<close>

definition series_eq :: "'a series \<Rightarrow> 'a \<Rightarrow> bool series" where
  "series_eq s v = map (\<lambda>(i, x). (i, x = v)) s"

text \<open>
  \<^verbatim>\<open>df[mask]\<close>: the rows of \<open>df\<close> at which the boolean Series is True, in order and with
  their labels. (The mask is always built from \<open>df\<close> itself, so it has \<open>df\<close>'s labels.)
\<close>

definition getitem_mask :: "frame \<Rightarrow> bool series \<Rightarrow> frame" where
  "getitem_mask df m = map fst (filter (\<lambda>(ir, (i, b)). b) (zip df m))"

text \<open>\<^verbatim>\<open>df.copy()\<close>: a new frame with the same rows and labels.\<close>

definition copy :: "frame \<Rightarrow> frame" where
  "copy df = df"

text \<open>\<^verbatim>\<open>len(df)\<close>, \<^verbatim>\<open>s.unique()\<close> (distinct values in order of first appearance),
  \<^verbatim>\<open>sorted(xs)\<close>.\<close>

definition len :: "'a list \<Rightarrow> nat" where
  "len xs = length xs"

fun unique_from :: "'a list \<Rightarrow> 'a list \<Rightarrow> 'a list" where
  "unique_from seen [] = []"
| "unique_from seen (x # xs) =
     (if x \<in> set seen then unique_from seen xs else x # unique_from (x # seen) xs)"

definition unique :: "'a series \<Rightarrow> 'a list" where
  "unique s = unique_from [] (map snd s)"

definition sorted_py :: "string list \<Rightarrow> string list" where
  "sorted_py xs = sort xs"

text \<open>The value of an integer in 64-bit two's complement: the result of integer
  arithmetic on an \<^verbatim>\<open>int64\<close> column, which wraps around silently.\<close>

definition int64 :: "int \<Rightarrow> int" where
  "int64 x = (x + 2 ^ 63) mod 2 ^ 64 - 2 ^ 63"

text \<open>\<^verbatim>\<open>s.sum()\<close> on an \<^verbatim>\<open>int64\<close> Series: 0 on the empty Series; the sum wraps
  around.\<close>

definition series_sum :: "int series \<Rightarrow> int" where
  "series_sum s = int64 (sum_list (map snd s))"

text \<open>
  \<^verbatim>\<open>s.mean()\<close>: NaN on the empty Series, the sum over the count otherwise. pandas
  takes this sum in floating point, so it does not wrap around; the mean is modelled as
  the exact quotient.
\<close>

definition series_mean :: "int series \<Rightarrow> pyfloat" where
  "series_mean s =
     (if s = [] then NaN else Fin (of_int (sum_list (map snd s)) / of_nat (length s)))"

text \<open>\<^verbatim>\<open>s.max()\<close>: NaN on the empty Series, the largest value otherwise.\<close>

fun series_max :: "int series \<Rightarrow> scalar" where
  "series_max [] = FloatS NaN"
| "series_max ((i, v) # s) = IntS (fold max (map snd s) v)"

text \<open>
  \<^verbatim>\<open>s.idxmax()\<close>: raises ValueError on the empty Series; otherwise the label of the
  first occurrence of the maximum (a later element replaces the running best only when
  it is strictly greater).
\<close>

fun idxmax_from :: "nat \<times> int \<Rightarrow> int series \<Rightarrow> nat" where
  "idxmax_from (bi, bv) [] = bi"
| "idxmax_from (bi, bv) ((j, w) # s) =
     (if bv < w then idxmax_from (j, w) s else idxmax_from (bi, bv) s)"

fun idxmax :: "int series \<Rightarrow> exn + nat" where
  "idxmax [] = Inl ValueError"
| "idxmax (iv # s) = Inr (idxmax_from iv s)"

text \<open>\<^verbatim>\<open>df.loc[label, c]\<close>: the value of column \<open>c\<close> in the row labelled \<open>label\<close>;
  KeyError when no row has the label.\<close>

definition loc :: "frame \<Rightarrow> nat \<Rightarrow> (row \<Rightarrow> 'a) \<Rightarrow> exn + 'a" where
  "loc df label c = (case map_of df label of None \<Rightarrow> Inl KeyError | Some r \<Rightarrow> Inr (c r))"

text \<open>
  \<^verbatim>\<open>int(x)\<close>: the identity on an integer; on a float, truncation towards zero, ValueError
  for NaN and OverflowError for an infinity.
\<close>

definition trunc :: "rat \<Rightarrow> int" where
  "trunc q = (if 0 \<le> q then \<lfloor>q\<rfloor> else \<lceil>q\<rceil>)"

fun py_int :: "scalar \<Rightarrow> exn + int" where
  "py_int (IntS n) = Inr n"
| "py_int (FloatS (Fin q)) = Inr (trunc q)"
| "py_int (FloatS NaN) = Inl ValueError"
| "py_int (FloatS PInf) = Inl OverflowError"
| "py_int (FloatS NInf) = Inl OverflowError"

subsection \<open>The sidebar and the filtered frames\<close>

text \<open>The dictionary \<^verbatim>\<open>PARTY_COLORS\<close>, in insertion order; the options of the party
  selector are its keys.\<close>

definition PARTY_COLORS :: "(string \<times> string) list" where
  "PARTY_COLORS =
     [(''Janasena Party'', ''#FF0000''),
      (''Telugu Desam'', ''#FFD700''),
      (''Yuvajana Sramika Rythu Congress Party'', ''#0000FF''),
      (''Bharatiya Janata Party'', ''#FFA500'')]"

definition party_options :: "string list" where
  "party_options = map fst PARTY_COLORS"

text \<open>\<^verbatim>\<open>constituencies = sorted(data['Constituency'].unique())\<close>\<close>

definition constituencies :: "frame \<Rightarrow> string list" where
  "constituencies data = sorted_py (unique (col Constituency data))"

text \<open>\<^verbatim>\<open>party_data = data[data['Party'] == selected_party].copy()\<close>\<close>

definition party_data :: "frame \<Rightarrow> string \<Rightarrow> frame" where
  "party_data data selected_party =
     copy (getitem_mask data (series_eq (col Party data) selected_party))"

text \<open>\<^verbatim>\<open>const_data = data[data['Constituency'] == selected_constituency].copy()\<close>\<close>

definition const_data :: "frame \<Rightarrow> string \<Rightarrow> frame" where
  "const_data data selected_constituency =
     copy (getitem_mask data (series_eq (col Constituency data) selected_constituency))"

subsection \<open>Tab 1: the metrics of the selected party\<close>

text \<open>
  The four \<^verbatim>\<open>st.metric\<close> values of tab 1, computed in the script's order from
  \<^verbatim>\<open>party_data\<close>:
  \<^verbatim>\<open>len(party_data['Constituency'].unique())\<close>,
  \<^verbatim>\<open>party_data['Total Votes'].sum()\<close>,
  \<^verbatim>\<open>int(party_data['Total Votes'].mean())\<close>,
  \<^verbatim>\<open>int(party_data['Total Votes'].max())\<close>.
  The first exception raised ends the computation.
\<close>

record party_metrics =
  t1_Total_Constituencies :: nat
  t1_Total_Votes :: int
  t1_Average_Votes :: int
  t1_Highest_Votes :: int

definition tab1_metrics :: "frame \<Rightarrow> exn + party_metrics" where
  "tab1_metrics pd =
     (let met1 = len (unique (col Constituency pd));
          met2 = series_sum (col Total_Votes pd)
      in case py_int (FloatS (series_mean (col Total_Votes pd))) of
           Inl e \<Rightarrow> Inl e
         | Inr met3 \<Rightarrow>
             (case py_int (series_max (col Total_Votes pd)) of
                Inl e \<Rightarrow> Inl e
              | Inr met4 \<Rightarrow>
                  Inr \<lparr>t1_Total_Constituencies = met1, t1_Total_Votes = met2,
                       t1_Average_Votes = met3, t1_Highest_Votes = met4\<rparr>))"

subsection \<open>Tab 2: the metrics of the selected constituency\<close>

text \<open>\<^verbatim>\<open>const_data.loc[const_data['Total Votes'].idxmax(), 'Party']\<close>\<close>

definition leading_party :: "frame \<Rightarrow> exn + string" where
  "leading_party cd =
     (case idxmax (col Total_Votes cd) of
        Inl e \<Rightarrow> Inl e
      | Inr label \<Rightarrow> loc cd label Party)"

text \<open>
  The three \<^verbatim>\<open>st.metric\<close> values of tab 2, in the script's order:
  \<^verbatim>\<open>len(const_data)\<close>, \<^verbatim>\<open>const_data['Total Votes'].sum()\<close> and the leading party.
\<close>

record const_metrics =
  t2_Total_Candidates :: nat
  t2_Total_Votes_Cast :: int
  t2_Leading_Party :: string

definition tab2_metrics :: "frame \<Rightarrow> exn + const_metrics" where
  "tab2_metrics cd =
     (let met1 = len cd;
          met2 = series_sum (col Total_Votes cd)
      in case leading_party cd of
           Inl e \<Rightarrow> Inl e
         | Inr met3 \<Rightarrow>
             Inr \<lparr>t2_Total_Candidates = met1, t2_Total_Votes_Cast = met2,
                  t2_Leading_Party = met3\<rparr>)"

subsection \<open>Tab 3: the totals per party\<close>

text \<open>Rounding to the nearest integer, a tie to the even neighbour (numpy's
  \<^verbatim>\<open>rint\<close>).\<close>

definition rint :: "rat \<Rightarrow> int" where
  "rint q =
     (let f = \<lfloor>q\<rfloor>; d = q - of_int f
      in if d < 1 / 2 then f
         else if 1 / 2 < d then f + 1
         else if even f then f else f + 1)"

text \<open>
  The binary exponent of a positive rational \<open>q\<close>: the integer \<open>e\<close> with
  \<open>2 ^ e \<le> q < 2 ^ (e + 1)\<close>, found by halving (for \<open>q \<ge> 1\<close>) or doubling (for
  \<open>q < 1\<close>).
\<close>

function ilog2_up :: "rat \<Rightarrow> int" where
  "ilog2_up q = (if q < 2 then 0 else ilog2_up (q / 2) + 1)"
  by pat_completeness auto
termination
proof (relation "measure (\<lambda>q. nat \<lfloor>q\<rfloor>)")
  show "wf (measure (\<lambda>q. nat \<lfloor>q\<rfloor>))" by simp
next
  fix q :: rat
  assume "\<not> q < 2"
  then have "\<lfloor>q / 2\<rfloor> < \<lfloor>q\<rfloor>" and "0 < \<lfloor>q\<rfloor>"
    by (simp_all add: floor_less_iff) linarith+
  then show "(q / 2, q) \<in> measure (\<lambda>q. nat \<lfloor>q\<rfloor>)" by simp
qed

function ilog2_down :: "rat \<Rightarrow> int" where
  "ilog2_down q = (if q \<le> 0 \<or> 1 \<le> q then 0 else ilog2_down (2 * q) - 1)"
  by pat_completeness auto
termination
proof (relation "measure (\<lambda>q. nat \<lceil>1 / q\<rceil>)")
  show "wf (measure (\<lambda>q. nat \<lceil>1 / q\<rceil>))" by simp
next
  fix q :: rat
  assume "\<not> (q \<le> 0 \<or> 1 \<le> q)"
  then have q: "0 < q" "q < 1" by simp_all
  then have "1 < 1 / q" by simp
  then have c: "2 \<le> \<lceil>1 / q\<rceil>" by linarith
  have "1 / (2 * q) = (1 / q) / 2" by simp
  also have "\<dots> \<le> of_int \<lceil>1 / q\<rceil> / 2" by (simp add: divide_right_mono)
  finally have "\<lceil>1 / (2 * q)\<rceil> \<le> \<lceil>(of_int \<lceil>1 / q\<rceil> :: rat) / 2\<rceil>"
    by (rule ceiling_mono)
  also have "\<dots> < \<lceil>1 / q\<rceil>" using c by (simp add: ceiling_less_iff)
  finally have "\<lceil>1 / (2 * q)\<rceil> < \<lceil>1 / q\<rceil>" .
  with c q show "(2 * q, q) \<in> measure (\<lambda>q. nat \<lceil>1 / q\<rceil>)" by simp
qed

declare ilog2_up.simps [simp del] ilog2_down.simps [simp del]

definition ilog2 :: "rat \<Rightarrow> int" where
  "ilog2 q = (if 1 \<le> q then ilog2_up q else ilog2_down q)"

text \<open>
  Rounding of an exact result to binary64, to nearest with ties to even: 53 significant
  bits, so the spacing of the values around \<open>q\<close> is \<open>2 ^ (e - 52)\<close> for the binary
  exponent \<open>e\<close> of \<open>\<bar>q\<bar>\<close>; the exponent is at least \<open>- 1022\<close> (below that the values
  are subnormal, with spacing \<open>2 ^ (- 1074)\<close>); a result that rounds to \<open>2 ^ 1024\<close> or
  more is an infinity. (The sign of a zero is not modelled.)
\<close>

definition fl64 :: "rat \<Rightarrow> pyfloat" where
  "fl64 q =
     (if q = 0 then Fin 0
      else let e = max (ilog2 \<bar>q\<bar>) (- 1022);
               ulp = 2 powi (e - 52);
               r = of_int (rint (\<bar>q\<bar> / ulp)) * ulp
           in if 2 powi 1024 \<le> r then (if 0 < q then PInf else NInf)
              else Fin (if 0 < q then r else - r))"

text \<open>
  Float division and multiplication as numpy does them on a Series. A finite value
  divided by zero is an infinity of its sign, NaN when it is zero too; NaN and the
  infinities propagate.
\<close>

fun fl_div :: "pyfloat \<Rightarrow> pyfloat \<Rightarrow> pyfloat" where
  "fl_div (Fin x) (Fin y) =
     (if y = 0 then (if 0 < x then PInf else if x < 0 then NInf else NaN)
      else fl64 (x / y))"
| "fl_div NaN y = NaN"
| "fl_div x NaN = NaN"
| "fl_div (Fin x) PInf = Fin 0"
| "fl_div (Fin x) NInf = Fin 0"
| "fl_div PInf (Fin y) = (if y < 0 then NInf else PInf)"
| "fl_div NInf (Fin y) = (if y < 0 then PInf else NInf)"
| "fl_div PInf PInf = NaN"
| "fl_div PInf NInf = NaN"
| "fl_div NInf PInf = NaN"
| "fl_div NInf NInf = NaN"

fun fl_mul :: "pyfloat \<Rightarrow> pyfloat \<Rightarrow> pyfloat" where
  "fl_mul (Fin a) (Fin b) = fl64 (a * b)"
| "fl_mul NaN y = NaN"
| "fl_mul x NaN = NaN"
| "fl_mul PInf (Fin b) = (if 0 < b then PInf else if b < 0 then NInf else NaN)"
| "fl_mul NInf (Fin b) = (if 0 < b then NInf else if b < 0 then PInf else NaN)"
| "fl_mul (Fin a) PInf = (if 0 < a then PInf else if a < 0 then NInf else NaN)"
| "fl_mul (Fin a) NInf = (if 0 < a then NInf else if a < 0 then PInf else NaN)"
| "fl_mul PInf PInf = PInf"
| "fl_mul NInf NInf = PInf"
| "fl_mul PInf NInf = NInf"
| "fl_mul NInf PInf = NInf"

text \<open>\<^verbatim>\<open>a / b\<close> on \<^verbatim>\<open>int64\<close> values: both are converted to float, then divided.\<close>

definition truediv :: "int \<Rightarrow> int \<Rightarrow> pyfloat" where
  "truediv a b = fl_div (fl64 (of_int a)) (fl64 (of_int b))"

text \<open>
  \<^verbatim>\<open>s.round(decimals)\<close> on one value, as numpy computes it: the value is multiplied by
  \<open>10 ^ decimals\<close>, rounded to the nearest integer and divided by \<open>10 ^ decimals\<close>, each
  step in floating point.
\<close>

fun fl_rint :: "pyfloat \<Rightarrow> pyfloat" where
  "fl_rint (Fin y) = Fin (of_int (rint y))"
| "fl_rint x = x"

definition fl_round :: "nat \<Rightarrow> pyfloat \<Rightarrow> pyfloat" where
  "fl_round decimals x =
     fl_div (fl_rint (fl_mul x (fl64 (10 ^ decimals)))) (fl64 (10 ^ decimals))"

text \<open>
  \<^verbatim>\<open>data.groupby('Party')['Total Votes'].agg(['sum', 'mean', 'count']).reset_index()\<close>:
  one row per distinct party, the parties in ascending order (groupby sorts its keys),
  with the sum, the mean and the count of the votes of the party's rows.
\<close>

definition groupby_agg :: "frame \<Rightarrow> (string \<times> int \<times> pyfloat \<times> nat) list" where
  "groupby_agg data =
     map (\<lambda>k. let g = col Total_Votes (filter (\<lambda>(i, r). Party r = k) data)
              in (k, series_sum g, series_mean g, len g))
         (sort (unique (col Party data)))"

text \<open>
  The rows of \<^verbatim>\<open>party_totals\<close> once the script has renamed the columns to
  \<^verbatim>\<open>Party\<close>, \<^verbatim>\<open>Total Votes\<close>, \<^verbatim>\<open>Average Votes\<close>, \<^verbatim>\<open>Constituencies\<close> and has added the
  column \<^verbatim>\<open>Vote Share (%)\<close>.
\<close>

record totals_row =
  pt_Party :: string
  pt_Total_Votes :: int
  pt_Average_Votes :: pyfloat
  pt_Constituencies :: nat
  pt_Vote_Share :: pyfloat

text \<open>
  \<^verbatim>\<open>party_totals['Vote Share (%)'] =
    (party_totals['Total Votes'] / party_totals['Total Votes'].sum() * 100).round(2)\<close>:
  the table with the new column.
\<close>

definition with_vote_share :: "(string \<times> int \<times> pyfloat \<times> nat) list \<Rightarrow> totals_row list" where
  "with_vote_share agg =
     (let total = int64 (sum_list (map (\<lambda>(p, s, m, c). s) agg))
      in map (\<lambda>(p, s, m, c).
                \<lparr>pt_Party = p, pt_Total_Votes = s, pt_Average_Votes = m,
                 pt_Constituencies = c,
                 pt_Vote_Share = fl_round 2 (fl_mul (truediv s total) (Fin 100))\<rparr>)
             agg)"

text \<open>\<^verbatim>\<open>party_totals\<close> as tab 3 uses it: the aggregation with the share column.\<close>

definition party_totals :: "frame \<Rightarrow> totals_row list" where
  "party_totals data = with_vote_share (groupby_agg data)"

subsection \<open>The scenario of the specification\<close>

text \<open>The three rows of the specification's scenario, as the content of the CSV file,
  and the frame the script loads from it.\<close>

definition scenario_rows :: "row list" where
  "scenario_rows =
     [\<lparr>Constituency = ''C1'', Candidate = ''X'', Party = ''PartyA'', Total_Votes = 100\<rparr>,
      \<lparr>Constituency = ''C1'', Candidate = ''Y'', Party = ''PartyB'', Total_Votes = 150\<rparr>,
      \<lparr>Constituency = ''C2'', Candidate = ''Z'', Party = ''PartyA'', Total_Votes = 50\<rparr>]"

definition scenario_data :: frame where
  "scenario_data = load_data scenario_rows"

text \<open>A constituency of three candidates in which the two highest totals are equal.\<close>

definition tie_rows :: "row list" where
  "tie_rows =
     [\<lparr>Constituency = ''C1'', Candidate = ''W'', Party = ''PartyC'', Total_Votes = 100\<rparr>,
      \<lparr>Constituency = ''C1'', Candidate = ''X'', Party = ''PartyA'', Total_Votes = 150\<rparr>,
      \<lparr>Constituency = ''C1'', Candidate = ''Y'', Party = ''PartyB'', Total_Votes = 150\<rparr>]"

definition tie_data :: frame where
  "tie_data = load_data tie_rows"



text \<open>Two candidates of one party in one constituency.\<close>

definition dup_rows :: "row list" where
  "dup_rows =
     [\<lparr>Constituency = ''C1'', Candidate = ''X'', Party = ''PartyA'', Total_Votes = 100\<rparr>,
      \<lparr>Constituency = ''C1'', Candidate = ''Y'', Party = ''PartyA'', Total_Votes = 50\<rparr>]"

definition dup_data :: frame where
  "dup_data = load_data dup_rows"

text \<open>Two rows of \<open>2 ^ 62\<close> votes each.\<close>

definition big_rows :: "row list" where
  "big_rows =
     [\<lparr>Constituency = ''C1'', Candidate = ''X'', Party = ''PartyA'',
       Total_Votes = 4611686018427387904\<rparr>,
      \<lparr>Constituency = ''C1'', Candidate = ''Y'', Party = ''PartyB'',
       Total_Votes = 4611686018427387904\<rparr>]"

definition big_data :: frame where
  "big_data = load_data big_rows"



subsection \<open>Frames as objects in a store\<close>

text \<open>
  In Python a DataFrame is an object and a variable holds a reference to it. To tell
  the operations that build a new table from those that change an existing one, the
  store is the list of the objects created so far and an address is a position in it.
  Indexing by a boolean mask, \<^verbatim>\<open>copy()\<close> and \<^verbatim>\<open>groupby(...).agg(...).reset_index()\<close>
  return new objects; the assignment \<^verbatim>\<open>party_totals['Vote Share (%)'] = ...\<close> changes
  the object \<^verbatim>\<open>party_totals\<close> refers to. (The assignment to \<^verbatim>\<open>party_totals.columns\<close>
  changes the column names of that same object only; the names are not part of the
  model.) The reductions (\<^verbatim>\<open>sum\<close>, \<^verbatim>\<open>mean\<close>, \<^verbatim>\<open>max\<close>, \<^verbatim>\<open>idxmax\<close>, \<^verbatim>\<open>loc\<close>) read a frame
  and leave the store as it is. An operation on an address that holds no DataFrame has
  no result (\<open>None\<close>); the script never does that.
\<close>

type_synonym addr = nat

datatype obj =
    DataFrame frame
  | AggFrame "(string \<times> int \<times> pyfloat \<times> nat) list"
  | TotalsFrame "totals_row list"

type_synonym store = "obj list"

text \<open>A new object gets the next free address.\<close>

definition alloc :: "store \<Rightarrow> obj \<Rightarrow> addr \<times> store" where
  "alloc h ob = (length h, h @ [ob])"

definition frame_at :: "store \<Rightarrow> addr \<Rightarrow> frame option" where
  "frame_at h a =
     (if a < length h then (case h ! a of DataFrame df \<Rightarrow> Some df | _ \<Rightarrow> None) else None)"

text \<open>\<^verbatim>\<open>df[mask]\<close> and \<^verbatim>\<open>df.copy()\<close> on the object at an address; the mask is computed from
  that object.\<close>

definition getitem_mask_st :: "store \<Rightarrow> addr \<Rightarrow> (frame \<Rightarrow> bool series) \<Rightarrow> (addr \<times> store) option" where
  "getitem_mask_st h a mk =
     (case frame_at h a of
        None \<Rightarrow> None
      | Some df \<Rightarrow> Some (alloc h (DataFrame (getitem_mask df (mk df)))))"

definition copy_st :: "store \<Rightarrow> addr \<Rightarrow> (addr \<times> store) option" where
  "copy_st h a =
     (case frame_at h a of
        None \<Rightarrow> None
      | Some df \<Rightarrow> Some (alloc h (DataFrame (copy df))))"

text \<open>The two filters of the script, on the address \<^verbatim>\<open>data\<close> refers to.\<close>

definition party_data_st :: "store \<Rightarrow> addr \<Rightarrow> string \<Rightarrow> (addr \<times> store) option" where
  "party_data_st h data selected_party =
     (case getitem_mask_st h data (\<lambda>df. series_eq (col Party df) selected_party) of
        None \<Rightarrow> None
      | Some (a, h') \<Rightarrow> copy_st h' a)"

definition const_data_st :: "store \<Rightarrow> addr \<Rightarrow> string \<Rightarrow> (addr \<times> store) option" where
  "const_data_st h data selected_constituency =
     (case getitem_mask_st h data (\<lambda>df. series_eq (col Constituency df) selected_constituency) of
        None \<Rightarrow> None
      | Some (a, h') \<Rightarrow> copy_st h' a)"

text \<open>The metrics read the frame at an address.\<close>

definition tab1_metrics_st :: "store \<Rightarrow> addr \<Rightarrow> ((exn + party_metrics) \<times> store) option" where
  "tab1_metrics_st h a =
     (case frame_at h a of None \<Rightarrow> None | Some df \<Rightarrow> Some (tab1_metrics df, h))"

definition leading_party_st :: "store \<Rightarrow> addr \<Rightarrow> ((exn + string) \<times> store) option" where
  "leading_party_st h a =
     (case frame_at h a of None \<Rightarrow> None | Some df \<Rightarrow> Some (leading_party df, h))"

definition tab2_metrics_st :: "store \<Rightarrow> addr \<Rightarrow> ((exn + const_metrics) \<times> store) option" where
  "tab2_metrics_st h a =
     (case frame_at h a of None \<Rightarrow> None | Some df \<Rightarrow> Some (tab2_metrics df, h))"

text \<open>Tab 3: the aggregation is a new object; the share column is added to it in place.\<close>

definition groupby_agg_st :: "store \<Rightarrow> addr \<Rightarrow> (addr \<times> store) option" where
  "groupby_agg_st h a =
     (case frame_at h a of
        None \<Rightarrow> None
      | Some df \<Rightarrow> Some (alloc h (AggFrame (groupby_agg df))))"

definition setitem_vote_share_st :: "store \<Rightarrow> addr \<Rightarrow> store option" where
  "setitem_vote_share_st h a =
     (if a < length h
      then (case h ! a of
              AggFrame agg \<Rightarrow> Some (h[a := TotalsFrame (with_vote_share agg)])
            | _ \<Rightarrow> None)
      else None)"

definition party_totals_st :: "store \<Rightarrow> addr \<Rightarrow> (addr \<times> store) option" where
  "party_totals_st h data =
     (case groupby_agg_st h data of
        None \<Rightarrow> None
      | Some (a, h') \<Rightarrow>
          (case setitem_vote_share_st h' a of
             None \<Rightarrow> None
           | Some h'' \<Rightarrow> Some (a, h'')))"

text \<open>The store after \<^verbatim>\<open>data = load_data()\<close> on the scenario: one object, at address 0.\<close>

definition scenario_store :: store where
  "scenario_store = [DataFrame scenario_data]"

section \<open>Properties\<close>

subsection \<open>Helper lemmas on masks\<close>

lemma getitem_mask_series_eq:
  "getitem_mask df (series_eq (col c df) v) = filter (\<lambda>(i, r). c r = v) df"
proof (induction df)
  case Nil
  show ?case by (simp add: getitem_mask_def series_eq_def col_def)
next
  case (Cons a df)
  obtain i r where a: "a = (i, r)" by (cases a)
  from Cons show ?case
    by (simp add: getitem_mask_def series_eq_def col_def a)
qed

lemma party_data_filter:
  "party_data data p = filter (\<lambda>(i, r). Party r = p) data"
  by (simp add: party_data_def copy_def getitem_mask_series_eq)

lemma const_data_filter:
  "const_data data c = filter (\<lambda>(i, r). Constituency r = c) data"
  by (simp add: const_data_def copy_def getitem_mask_series_eq)


subsection \<open>The scenario frame\<close>

lemma scenario_data_eq:
  "scenario_data =
     [(0, \<lparr>Constituency = ''C1'', Candidate = ''X'', Party = ''PartyA'', Total_Votes = 100\<rparr>),
      (1, \<lparr>Constituency = ''C1'', Candidate = ''Y'', Party = ''PartyB'', Total_Votes = 150\<rparr>),
      (2, \<lparr>Constituency = ''C2'', Candidate = ''Z'', Party = ''PartyA'', Total_Votes = 50\<rparr>)]"
  by (simp add: scenario_data_def load_data_def read_csv_def scenario_rows_def upt_rec)

subsection \<open>Filtering\<close>

text \<open>
  C5. \<^verbatim>\<open>party_data\<close> (the specification's filterByParty) is exactly the rows of the
  table whose party equals the selected name, in the table's order and with their
  labels; \<^verbatim>\<open>const_data\<close> (filterByConstituency) is exactly the rows whose constituency
  equals the selected name. Both are total: for any name whatever, known or not, the
  result is a frame, and it is the empty frame when no row matches.
\<close>

theorem filter_exact:
  "party_data data p = filter (\<lambda>(i, r). Party r = p) data \<and>
   const_data data c = filter (\<lambda>(i, r). Constituency r = c) data \<and>
   set (party_data data p) = {x \<in> set data. Party (snd x) = p} \<and>
   set (const_data data c) = {x \<in> set data. Constituency (snd x) = c} \<and>
   (party_data data p = [] \<longleftrightarrow> p \<notin> (\<lambda>x. Party (snd x)) ` set data) \<and>
   (const_data data c = [] \<longleftrightarrow> c \<notin> (\<lambda>x. Constituency (snd x)) ` set data)"
proof -
  have "set (party_data data p) = {x \<in> set data. Party (snd x) = p}"
    by (auto simp: party_data_filter)
  moreover have "set (const_data data c) = {x \<in> set data. Constituency (snd x) = c}"
    by (auto simp: const_data_filter)
  moreover have "party_data data p = [] \<longleftrightarrow> p \<notin> (\<lambda>x. Party (snd x)) ` set data"
    by (force simp: party_data_filter filter_empty_conv)
  moreover have "const_data data c = [] \<longleftrightarrow> c \<notin> (\<lambda>x. Constituency (snd x)) ` set data"
    by (force simp: const_data_filter filter_empty_conv)
  ultimately show ?thesis
    by (simp add: party_data_filter const_data_filter)
qed

text \<open>On the scenario: a party name outside the known names and a constituency that
  does not occur both give the empty frame, and the party PartyA gives its two rows.\<close>

theorem filter_exact_witness:
  "party_data scenario_data ''Nobody'' = [] \<and>
   const_data scenario_data ''C9'' = [] \<and>
   party_data scenario_data ''PartyA'' = [scenario_data ! 0, scenario_data ! 2] \<and>
   const_data scenario_data ''C1'' = [scenario_data ! 0, scenario_data ! 1]"
proof -
  have h1: "''Nobody'' \<notin> (\<lambda>x. Party (snd x)) ` set scenario_data"
    by (simp add: scenario_data_eq)
  have h2: "''C9'' \<notin> (\<lambda>x. Constituency (snd x)) ` set scenario_data"
    by (simp add: scenario_data_eq)
  from filter_exact [of scenario_data "''Nobody''" "''C9''"] h1 h2
  have "party_data scenario_data ''Nobody'' = []" "const_data scenario_data ''C9'' = []"
    by blast+
  moreover from filter_exact [of scenario_data "''PartyA''" "''C1''"]
  have "party_data scenario_data ''PartyA'' = [scenario_data ! 0, scenario_data ! 2]"
    "const_data scenario_data ''C1'' = [scenario_data ! 0, scenario_data ! 1]"
    by (simp_all add: scenario_data_eq)
  ultimately show ?thesis by blast
qed

text \<open>
  C8. Filtering the result of \<^verbatim>\<open>party_data\<close> again by the same party name returns it
  unchanged.
\<close>

theorem party_data_idempotent:
  "party_data (party_data data p) p = party_data data p"
  by (simp add: party_data_filter case_prod_unfold)

subsection \<open>Helper lemmas on columns, maxima and the index of the maximum\<close>

lemma col_Nil [simp]: "col c [] = []"
  by (simp add: col_def)

lemma col_Cons [simp]: "col c ((i, r) # df) = (i, c r) # col c df"
  by (simp add: col_def)

lemma col_eq_Nil [simp]: "col c df = [] \<longleftrightarrow> df = []"
  by (simp add: col_def)

lemma length_col [simp]: "length (col c df) = length df"
  by (simp add: col_def)

lemma map_snd_col: "map snd (col c df) = map (\<lambda>x. c (snd x)) df"
  by (simp add: col_def case_prod_unfold)

lemma int64_id: "- (2 ^ 63) \<le> x \<Longrightarrow> x < 2 ^ 63 \<Longrightarrow> int64 x = x"
  by (simp add: int64_def)

lemma series_sum_col:
  "series_sum (col c df) = int64 (sum_list (map (\<lambda>x. c (snd x)) df))"
  by (simp add: series_sum_def map_snd_col)

lemma series_max_col:
  "df \<noteq> [] \<Longrightarrow> series_max (col c df) = IntS (Max ((\<lambda>x. c (snd x)) ` set df))"
proof (cases df)
  case Nil
  then show "df \<noteq> [] \<Longrightarrow> ?thesis" by simp
next
  case (Cons a df')
  obtain i r where a: "a = (i, r)" by (cases a)
  have "fold max (map snd (col c df')) (c r) = Max (set (c r # map snd (col c df')))"
    by (simp only: Max.set_eq_fold)
  then show ?thesis
    by (simp add: Cons a map_snd_col)
qed

lemma idxmax_from_split:
  "\<exists>pre l r post. (i0, r0) # df = pre @ (l, r) # post \<and>
     idxmax_from (i0, Total_Votes r0) (col Total_Votes df) = l \<and>
     (\<forall>x \<in> set pre. Total_Votes (snd x) < Total_Votes r) \<and>
     (\<forall>x \<in> set post. Total_Votes (snd x) \<le> Total_Votes r)"
proof (induction df arbitrary: i0 r0)
  case Nil
  have "[(i0, r0)] = [] @ (i0, r0) # []" by simp
  then show ?case by force
next
  case (Cons a df)
  obtain j q where a: "a = (j, q)" by (cases a)
  show ?case
  proof (cases "Total_Votes r0 < Total_Votes q")
    case True
    from Cons.IH [of j q] obtain pre l r post where
      s: "(j, q) # df = pre @ (l, r) # post" and
      i: "idxmax_from (j, Total_Votes q) (col Total_Votes df) = l" and
      lt: "\<forall>x \<in> set pre. Total_Votes (snd x) < Total_Votes r" and
      le: "\<forall>x \<in> set post. Total_Votes (snd x) \<le> Total_Votes r"
      by blast
    have "Total_Votes q \<le> Total_Votes r"
    proof (cases pre)
      case Nil
      with s show ?thesis by simp
    next
      case (Cons b pre')
      with s have "(j, q) \<in> set pre" by simp
      with lt show ?thesis by force
    qed
    with True have "Total_Votes r0 < Total_Votes r" by simp
    with lt have "\<forall>x \<in> set ((i0, r0) # pre). Total_Votes (snd x) < Total_Votes r"
      by simp
    moreover from s have "(i0, r0) # a # df = ((i0, r0) # pre) @ (l, r) # post"
      by (simp add: a)
    moreover from i True
    have "idxmax_from (i0, Total_Votes r0) (col Total_Votes (a # df)) = l"
      by (simp add: a)
    ultimately show ?thesis using le by blast
  next
    case False
    from Cons.IH [of i0 r0] obtain pre l r post where
      s: "(i0, r0) # df = pre @ (l, r) # post" and
      i: "idxmax_from (i0, Total_Votes r0) (col Total_Votes df) = l" and
      lt: "\<forall>x \<in> set pre. Total_Votes (snd x) < Total_Votes r" and
      le: "\<forall>x \<in> set post. Total_Votes (snd x) \<le> Total_Votes r"
      by blast
    from i False
    have i': "idxmax_from (i0, Total_Votes r0) (col Total_Votes (a # df)) = l"
      by (simp add: a)
    show ?thesis
    proof (cases pre)
      case Nil
      with s have e: "l = i0" "r = r0" "post = df" by simp_all
      from False le e
      have "\<forall>x \<in> set (a # df). Total_Votes (snd x) \<le> Total_Votes r0"
        by (simp add: a)
      moreover have "(i0, r0) # a # df = [] @ (i0, r0) # (a # df)" by simp
      ultimately show ?thesis using i' e by fastforce
    next
      case (Cons b pre')
      with s have b: "b = (i0, r0)" and df: "df = pre' @ (l, r) # post" by simp_all
      from lt Cons b have "Total_Votes r0 < Total_Votes r" by simp
      with False have "Total_Votes q < Total_Votes r" by simp
      with lt Cons b
      have "\<forall>x \<in> set ((i0, r0) # a # pre'). Total_Votes (snd x) < Total_Votes r"
        by (simp add: a)
      moreover from df have "(i0, r0) # a # df = ((i0, r0) # a # pre') @ (l, r) # post"
        by simp
      ultimately show ?thesis using i' le by blast
    qed
  qed
qed

lemma idxmax_col_split:
  assumes "df \<noteq> []"
  shows "\<exists>pre l r post. df = pre @ (l, r) # post \<and>
     idxmax (col Total_Votes df) = Inr l \<and>
     (\<forall>x \<in> set pre. Total_Votes (snd x) < Total_Votes r) \<and>
     (\<forall>x \<in> set post. Total_Votes (snd x) \<le> Total_Votes r)"
proof -
  from assms obtain i0 r0 df' where df: "df = (i0, r0) # df'"
    by (cases df) auto
  from idxmax_from_split [of i0 r0 df'] show ?thesis
    by (simp add: df)
qed

lemma loc_split:
  assumes "distinct (map fst (pre @ (l, r) # post))"
  shows "loc (pre @ (l, r) # post) l c = Inr (c r)"
proof -
  from assms have "l \<notin> fst ` set pre" by auto
  then have "map_of pre l = None" by (simp add: map_of_eq_None_iff)
  then show ?thesis by (simp add: loc_def map_add_def)
qed

lemma Max_split:
  fixes f :: "'a \<Rightarrow> int"
  assumes "\<forall>x \<in> set pre. f x < f y" "\<forall>x \<in> set post. f x \<le> f y"
  shows "Max (f ` set (pre @ y # post)) = f y"
  using assms by (intro Max_eqI) (auto intro: less_imp_le)


lemma py_int_mean_col:
  "df \<noteq> [] \<Longrightarrow>
   py_int (FloatS (series_mean (col c df))) =
     Inr (trunc (of_int (sum_list (map (\<lambda>x. c (snd x)) df)) / of_nat (length df)))"
  by (simp add: series_mean_def map_snd_col)

lemma tab1_metrics_nonempty:
  assumes "df \<noteq> []"
  shows "tab1_metrics df =
     Inr \<lparr>t1_Total_Constituencies = length (unique (col Constituency df)),
          t1_Total_Votes = int64 (sum_list (map (\<lambda>x. Total_Votes (snd x)) df)),
          t1_Average_Votes =
            trunc (of_int (sum_list (map (\<lambda>x. Total_Votes (snd x)) df)) / of_nat (length df)),
          t1_Highest_Votes = Max ((\<lambda>x. Total_Votes (snd x)) ` set df)\<rparr>"
  using assms
  by (simp add: tab1_metrics_def py_int_mean_col series_max_col series_sum_col len_def)

lemma leading_party_split:
  assumes "df \<noteq> []" and "distinct (map fst df)"
  shows "\<exists>pre l r post. df = pre @ (l, r) # post \<and>
     leading_party df = Inr (Party r) \<and>
     (\<forall>x \<in> set pre. Total_Votes (snd x) < Total_Votes r) \<and>
     (\<forall>x \<in> set post. Total_Votes (snd x) \<le> Total_Votes r)"
proof -
  from idxmax_col_split [OF assms(1)] obtain pre l r post where
    s: "df = pre @ (l, r) # post" and
    i: "idxmax (col Total_Votes df) = Inr l" and
    lt: "\<forall>x \<in> set pre. Total_Votes (snd x) < Total_Votes r" and
    le: "\<forall>x \<in> set post. Total_Votes (snd x) \<le> Total_Votes r"
    by blast
  from assms(2) s have "loc df l Party = Inr (Party r)"
    using loc_split [of pre l r post Party] by simp
  with i have "leading_party df = Inr (Party r)"
    by (simp add: leading_party_def)
  with s lt le show ?thesis by blast
qed

lemma leading_party_succeeds:
  assumes "df \<noteq> []"
  shows "\<exists>p. leading_party df = Inr p"
proof -
  from idxmax_col_split [OF assms] obtain pre l r post where
    s: "df = pre @ (l, r) # post" and
    i: "idxmax (col Total_Votes df) = Inr l"
    by blast
  from s have "l \<in> fst ` set df" by force
  then obtain q where "map_of df l = Some q"
    by (cases "map_of df l") (auto simp: map_of_eq_None_iff)
  with i show ?thesis
    by (simp add: leading_party_def loc_def)
qed

lemma tab2_metrics_nonempty:
  assumes "df \<noteq> []"
  shows "\<exists>p. leading_party df = Inr p \<and>
     tab2_metrics df =
       Inr \<lparr>t2_Total_Candidates = length df,
            t2_Total_Votes_Cast = int64 (sum_list (map (\<lambda>x. Total_Votes (snd x)) df)),
            t2_Leading_Party = p\<rparr>"
proof -
  from leading_party_succeeds [OF assms] obtain p where "leading_party df = Inr p" ..
  then show ?thesis
    by (simp add: tab2_metrics_def len_def series_sum_col)
qed

lemma distinct_labels_load_data: "distinct (map fst (load_data file))"
  by (simp add: load_data_def read_csv_def)

lemma distinct_labels_const_data:
  "distinct (map fst data) \<Longrightarrow> distinct (map fst (const_data data c))"
  by (simp add: const_data_filter distinct_map_filter)

lemma distinct_labels_party_data:
  "distinct (map fst data) \<Longrightarrow> distinct (map fst (party_data data p))"
  by (simp add: party_data_filter distinct_map_filter)

lemma tie_data_eq:
  "tie_data =
     [(0, \<lparr>Constituency = ''C1'', Candidate = ''W'', Party = ''PartyC'', Total_Votes = 100\<rparr>),
      (1, \<lparr>Constituency = ''C1'', Candidate = ''X'', Party = ''PartyA'', Total_Votes = 150\<rparr>),
      (2, \<lparr>Constituency = ''C1'', Candidate = ''Y'', Party = ''PartyB'', Total_Votes = 150\<rparr>)]"
  by (simp add: tie_data_def load_data_def read_csv_def tie_rows_def upt_rec)

subsection \<open>Helper lemmas on distinct values\<close>

lemma set_unique_from: "set (unique_from seen xs) = set xs - set seen"
  by (induction xs arbitrary: seen) auto

lemma distinct_unique_from: "distinct (unique_from seen xs)"
  by (induction xs arbitrary: seen) (auto simp: set_unique_from)

lemma set_unique: "set (unique s) = snd ` set s"
  by (simp add: unique_def set_unique_from)

lemma distinct_unique: "distinct (unique s)"
  by (simp add: unique_def distinct_unique_from)

text \<open>
  The first metric of tab 1, \<^verbatim>\<open>Total Constituencies\<close>, is not a count of rows: it is the
  number of distinct constituencies among the rows of the subset.
\<close>

lemma tab1_total_constituencies:
  assumes "S \<noteq> []"
  shows "\<exists>m. tab1_metrics S = Inr m \<and>
     t1_Total_Constituencies m = card ((\<lambda>x. Constituency (snd x)) ` set S)"
proof -
  have "length (unique (col Constituency S)) = card (set (unique (col Constituency S)))"
    by (simp add: distinct_card distinct_unique)
  also have "set (unique (col Constituency S)) = (\<lambda>x. Constituency (snd x)) ` set S"
    by (force simp: set_unique col_def)
  finally show ?thesis
    by (simp add: tab1_metrics_nonempty [OF assms])
qed

lemma set_constituencies:
  "set (constituencies data) = (\<lambda>x. Constituency (snd x)) ` set data"
  by (force simp: constituencies_def sorted_py_def set_unique col_def)



subsection \<open>Summary statistics of a non-empty subset\<close>

lemma dup_data_eq:
  "dup_data =
     [(0, \<lparr>Constituency = ''C1'', Candidate = ''X'', Party = ''PartyA'', Total_Votes = 100\<rparr>),
      (1, \<lparr>Constituency = ''C1'', Candidate = ''Y'', Party = ''PartyA'', Total_Votes = 50\<rparr>)]"
  by (simp add: dup_data_def load_data_def read_csv_def dup_rows_def upt_rec)

lemma big_data_eq:
  "big_data =
     [(0, \<lparr>Constituency = ''C1'', Candidate = ''X'', Party = ''PartyA'',
           Total_Votes = 4611686018427387904\<rparr>),
      (1, \<lparr>Constituency = ''C1'', Candidate = ''Y'', Party = ''PartyB'',
           Total_Votes = 4611686018427387904\<rparr>)]"
  by (simp add: big_data_def load_data_def read_csv_def big_rows_def upt_rec)

text \<open>
  C4 (as stated, refuted). The count tab 1 displays,
  \<^verbatim>\<open>len(party_data['Constituency'].unique())\<close>, is the number of distinct constituencies:
  for two candidates of one party in one constituency it is 1, where the subset has 2
  rows. And the sums are sums of an \<^verbatim>\<open>int64\<close> column: for two rows of \<open>2 ^ 62\<close> votes the
  sum of the votes is \<open>2 ^ 63\<close>, and the sum the script displays is \<open>- (2 ^ 63)\<close>.
\<close>

theorem summary_count_sum_cex:
  "length dup_data = 2 \<and>
   tab1_metrics dup_data =
     Inr \<lparr>t1_Total_Constituencies = 1, t1_Total_Votes = 150,
          t1_Average_Votes = 75, t1_Highest_Votes = 100\<rparr> \<and>
   sum_list (map (\<lambda>x. Total_Votes (snd x)) big_data) = 9223372036854775808 \<and>
   tab2_metrics big_data =
     Inr \<lparr>t2_Total_Candidates = 2, t2_Total_Votes_Cast = - 9223372036854775808,
          t2_Leading_Party = ''PartyA''\<rparr>"
proof -
  have "tab1_metrics dup_data =
     Inr \<lparr>t1_Total_Constituencies = 1, t1_Total_Votes = 150,
          t1_Average_Votes = 75, t1_Highest_Votes = 100\<rparr>"
    by (simp add: dup_data_eq tab1_metrics_def unique_def len_def series_sum_def int64_def
        series_mean_def trunc_def)
  moreover have "tab2_metrics big_data =
     Inr \<lparr>t2_Total_Candidates = 2, t2_Total_Votes_Cast = - 9223372036854775808,
          t2_Leading_Party = ''PartyA''\<rparr>"
    by (simp add: big_data_eq tab2_metrics_def leading_party_def loc_def len_def
        series_sum_def int64_def)
  ultimately show ?thesis by (simp add: dup_data_eq big_data_eq)
qed

text \<open>
  C4 (amended). For every non-empty subset \<open>S\<close> whose sum of votes lies in the range of
  the 64-bit integers, the metrics of both tabs are computed; the sum they display
  (\<^verbatim>\<open>Total Votes\<close> in tab 1, \<^verbatim>\<open>Total Votes Cast\<close> in tab 2) is the sum of the
  \<^verbatim>\<open>Total Votes\<close> of the rows of \<open>S\<close>; the count of tab 2 (\<^verbatim>\<open>len(const_data)\<close>) is the
  number of rows of \<open>S\<close>; the count of tab 1 is the number of distinct constituencies
  of \<open>S\<close>, which is the number of rows exactly when no constituency occurs twice in \<open>S\<close>.
\<close>

theorem summary_sum_count:
  assumes "S \<noteq> []"
    and "- (2 ^ 63) \<le> sum_list (map (\<lambda>x. Total_Votes (snd x)) S)"
    and "sum_list (map (\<lambda>x. Total_Votes (snd x)) S) < 2 ^ 63"
  shows "\<exists>m1 m2. tab1_metrics S = Inr m1 \<and> tab2_metrics S = Inr m2 \<and>
     t1_Total_Votes m1 = sum_list (map (\<lambda>x. Total_Votes (snd x)) S) \<and>
     t2_Total_Votes_Cast m2 = sum_list (map (\<lambda>x. Total_Votes (snd x)) S) \<and>
     t2_Total_Candidates m2 = length S \<and>
     t1_Total_Constituencies m1 = card ((\<lambda>x. Constituency (snd x)) ` set S) \<and>
     (t1_Total_Constituencies m1 = length S \<longleftrightarrow>
        distinct (map (\<lambda>x. Constituency (snd x)) S))"
proof -
  let ?sum = "sum_list (map (\<lambda>x. Total_Votes (snd x)) S)"
  let ?cs = "map (\<lambda>x. Constituency (snd x)) S"
  from assms(2,3) have w: "int64 ?sum = ?sum" by (rule int64_id)
  from tab1_total_constituencies [OF assms(1)] obtain m1 where
    m1: "tab1_metrics S = Inr m1"
    and c1: "t1_Total_Constituencies m1 = card ((\<lambda>x. Constituency (snd x)) ` set S)"
    by blast
  from m1 have s1: "t1_Total_Votes m1 = ?sum"
    by (auto simp: tab1_metrics_nonempty [OF assms(1)] w)
  from tab2_metrics_nonempty [OF assms(1)] obtain m2 where
    m2: "tab2_metrics S = Inr m2" and s2: "t2_Total_Votes_Cast m2 = ?sum"
    and n2: "t2_Total_Candidates m2 = length S"
    by (auto simp: w)
  have "card (set ?cs) = length ?cs \<longleftrightarrow> distinct ?cs"
    using card_distinct [of ?cs] distinct_card [of ?cs] by blast
  with c1 have d: "t1_Total_Constituencies m1 = length S \<longleftrightarrow> distinct ?cs"
    by simp
  from m1 m2 s1 s2 n2 c1 d show ?thesis by blast
qed

text \<open>On the two candidates of one party in one constituency.\<close>

theorem summary_sum_count_witness:
  "dup_data \<noteq> [] \<and>
   - (2 ^ 63) \<le> sum_list (map (\<lambda>x. Total_Votes (snd x)) dup_data) \<and>
   sum_list (map (\<lambda>x. Total_Votes (snd x)) dup_data) < 2 ^ 63 \<and>
   (\<exists>m1 m2. tab1_metrics dup_data = Inr m1 \<and> tab2_metrics dup_data = Inr m2 \<and>
     t1_Total_Votes m1 = 150 \<and> t2_Total_Votes_Cast m2 = 150 \<and>
     t2_Total_Candidates m2 = 2 \<and> t1_Total_Constituencies m1 = 1)"
proof -
  have h1: "dup_data \<noteq> []" by (simp add: dup_data_eq)
  have e: "sum_list (map (\<lambda>x. Total_Votes (snd x)) dup_data) = 150"
    "length dup_data = 2"
    "card ((\<lambda>x. Constituency (snd x)) ` set dup_data) = 1"
    by (simp_all add: dup_data_eq)
  have h2: "- (2 ^ 63) \<le> sum_list (map (\<lambda>x. Total_Votes (snd x)) dup_data)"
    and h3: "sum_list (map (\<lambda>x. Total_Votes (snd x)) dup_data) < 2 ^ 63"
    by (simp_all add: e)
  from summary_sum_count [OF h1 h2 h3]
  have "\<exists>m1 m2. tab1_metrics dup_data = Inr m1 \<and> tab2_metrics dup_data = Inr m2 \<and>
     t1_Total_Votes m1 = 150 \<and> t2_Total_Votes_Cast m2 = 150 \<and>
     t2_Total_Candidates m2 = 2 \<and> t1_Total_Constituencies m1 = 1"
    unfolding e by blast
  with h1 h2 h3 show ?thesis by blast
qed

text \<open>
  C6. For every non-empty subset \<open>S\<close>, the maximum the script displays
  (\<^verbatim>\<open>int(party_data['Total Votes'].max())\<close>, the \<^verbatim>\<open>Highest Votes\<close> of tab 1) is at least
  the \<^verbatim>\<open>Total Votes\<close> of every row of \<open>S\<close> and is the \<^verbatim>\<open>Total Votes\<close> of some row of
  \<open>S\<close>.
\<close>

theorem highest_votes_is_maximum:
  assumes "S \<noteq> []"
  shows "\<exists>m. tab1_metrics S = Inr m \<and>
     (\<forall>x \<in> set S. Total_Votes (snd x) \<le> t1_Highest_Votes m) \<and>
     (\<exists>x \<in> set S. Total_Votes (snd x) = t1_Highest_Votes m)"
proof -
  let ?V = "(\<lambda>x. Total_Votes (snd x)) ` set S"
  from assms have fin: "finite ?V" and ne: "?V \<noteq> {}" by simp_all
  have "\<forall>x \<in> set S. Total_Votes (snd x) \<le> Max ?V"
    using fin by (auto intro: Max_ge)
  moreover from Max_in [OF fin ne]
  have "\<exists>x \<in> set S. Total_Votes (snd x) = Max ?V" by force
  ultimately show ?thesis
    by (simp add: tab1_metrics_nonempty [OF assms])
qed

theorem highest_votes_is_maximum_witness:
  "scenario_data \<noteq> [] \<and>
   (\<exists>m. tab1_metrics scenario_data = Inr m \<and> t1_Highest_Votes m = 150 \<and>
     Total_Votes (snd (scenario_data ! 1)) = t1_Highest_Votes m)"
proof -
  have h: "scenario_data \<noteq> []" by (simp add: scenario_data_eq)
  from highest_votes_is_maximum [OF h] obtain m where
    m: "tab1_metrics scenario_data = Inr m" and
    ub: "\<forall>x \<in> set scenario_data. Total_Votes (snd x) \<le> t1_Highest_Votes m" and
    at: "\<exists>x \<in> set scenario_data. Total_Votes (snd x) = t1_Highest_Votes m"
    by blast
  from ub have "150 \<le> t1_Highest_Votes m" by (simp add: scenario_data_eq)
  moreover from at have "t1_Highest_Votes m \<le> 150" by (auto simp: scenario_data_eq)
  ultimately have "t1_Highest_Votes m = 150" by simp
  with m h show ?thesis by (simp add: scenario_data_eq)
qed

text \<open>
  C2. For every non-empty subset \<open>S\<close> (with the distinct row labels every frame of the
  script has), \<^verbatim>\<open>leading_party\<close> returns the party of a row \<open>(l, r)\<close> of \<open>S\<close> whose
  \<^verbatim>\<open>Total Votes\<close> is the maximum over \<open>S\<close>, which is the \<^verbatim>\<open>Highest Votes\<close> of the
  summary; every row before it in \<open>S\<close> has strictly fewer votes, so among several rows
  attaining the maximum the first in input order is chosen.
\<close>

theorem leading_party_first_maximum:
  assumes "S \<noteq> []" and "distinct (map fst S)"
  shows "\<exists>pre l r post. S = pre @ (l, r) # post \<and>
     leading_party S = Inr (Party r) \<and>
     (\<forall>x \<in> set pre. Total_Votes (snd x) < Total_Votes r) \<and>
     (\<forall>x \<in> set post. Total_Votes (snd x) \<le> Total_Votes r) \<and>
     (\<exists>m. tab1_metrics S = Inr m \<and> t1_Highest_Votes m = Total_Votes r)"
proof -
  from leading_party_split [OF assms] obtain pre l r post where
    s: "S = pre @ (l, r) # post" and
    lp: "leading_party S = Inr (Party r)" and
    lt: "\<forall>x \<in> set pre. Total_Votes (snd x) < Total_Votes r" and
    le: "\<forall>x \<in> set post. Total_Votes (snd x) \<le> Total_Votes r"
    by blast
  from lt le have "Max ((\<lambda>x. Total_Votes (snd x)) ` set (pre @ (l, r) # post)) = Total_Votes r"
    using Max_split [of pre "\<lambda>x. Total_Votes (snd x)" "(l, r)" post] by simp
  then have "Max ((\<lambda>x. Total_Votes (snd x)) ` set S) = Total_Votes r"
    by (simp only: s)
  then have "\<exists>m. tab1_metrics S = Inr m \<and> t1_Highest_Votes m = Total_Votes r"
    by (simp add: tab1_metrics_nonempty [OF assms(1)])
  with s lp lt le show ?thesis by blast
qed

text \<open>On the frame with a tie, PartyA (the first of the two rows with 150 votes) leads.\<close>

theorem leading_party_first_maximum_witness:
  "tie_data \<noteq> [] \<and> distinct (map fst tie_data) \<and>
   leading_party tie_data = Inr ''PartyA'' \<and>
   (\<exists>r::row. leading_party tie_data = Inr (Party r) \<and>
     (\<exists>m. tab1_metrics tie_data = Inr m \<and> t1_Highest_Votes m = Total_Votes r))"
proof -
  have h1: "tie_data \<noteq> []" by (simp add: tie_data_eq)
  have h2: "distinct (map fst tie_data)" by (simp add: tie_data_eq)
  have v: "leading_party tie_data = Inr ''PartyA''"
    by (simp add: tie_data_eq leading_party_def loc_def)
  from leading_party_first_maximum [OF h1 h2]
  have "\<exists>r::row. leading_party tie_data = Inr (Party r) \<and>
     (\<exists>m. tab1_metrics tie_data = Inr m \<and> t1_Highest_Votes m = Total_Votes r)"
    by blast
  with h1 h2 v show ?thesis by blast
qed

subsection \<open>The empty subset\<close>

text \<open>
  C1 (as stated, refuted). The claim is that on the empty subset the summary and the
  leading party yield an explicit result EmptyAggregationInput and do not end in a
  runtime fault. The script has no such result: on the empty frame
  \<^verbatim>\<open>int(party_data['Total Votes'].mean())\<close> raises ValueError (the mean is NaN), and
  \<^verbatim>\<open>const_data['Total Votes'].idxmax()\<close> raises ValueError. A result \<open>Inl e\<close> of the model
  is the exception \<open>e\<close> leaving the script, which nothing catches.
\<close>

theorem empty_subset_raises_cex:
  "tab1_metrics [] = Inl ValueError \<and> leading_party [] = Inl ValueError \<and>
   tab2_metrics [] = Inl ValueError"
  by (simp add: tab1_metrics_def tab2_metrics_def leading_party_def series_mean_def)

text \<open>
  C1 (amended). The metric computations of tab 1, the leading party and the metric
  computations of tab 2 end in an exception exactly when the subset is empty, and the
  exception is then Python's ValueError: the empty input is reported by a runtime fault,
  never by a zero or null value in place of the result.
\<close>

theorem empty_subset_raises_value_error:
  "(tab1_metrics S = Inl e \<longleftrightarrow> S = [] \<and> e = ValueError) \<and>
   (leading_party S = Inl e \<longleftrightarrow> S = [] \<and> e = ValueError) \<and>
   (tab2_metrics S = Inl e \<longleftrightarrow> S = [] \<and> e = ValueError)"
proof (cases "S = []")
  case True
  then show ?thesis
    by (auto simp: tab1_metrics_def tab2_metrics_def leading_party_def series_mean_def)
next
  case False
  from tab2_metrics_nonempty [OF False] obtain p where
    "leading_party S = Inr p" and "\<exists>m. tab2_metrics S = Inr m"
    by blast
  with False show ?thesis
    by (auto simp: tab1_metrics_nonempty)
qed

subsection \<open>Rounding to binary64\<close>

text \<open>The binary exponent.\<close>

lemma ilog2_up_bounds:
  "1 \<le> q \<Longrightarrow> 2 powi ilog2_up q \<le> q \<and> q < 2 powi (ilog2_up q + 1) \<and> 0 \<le> ilog2_up q"
proof (induction q rule: ilog2_up.induct)
  case (1 q)
  show ?case
  proof (cases "q < 2")
    case True
    then have "ilog2_up q = 0" by (subst ilog2_up.simps) simp
    with True 1 show ?thesis by simp
  next
    case False
    then have e: "ilog2_up q = ilog2_up (q / 2) + 1" by (subst ilog2_up.simps) simp
    from False have "1 \<le> q / 2" by simp
    with 1 False have ih: "2 powi ilog2_up (q / 2) \<le> q / 2"
      "q / 2 < 2 powi (ilog2_up (q / 2) + 1)" "0 \<le> ilog2_up (q / 2)"
      by simp_all
    have p: "2 powi (k + 1) = 2 * (2 powi k :: rat)" for k
      by (rule power_int_add_1') simp
    from ih show ?thesis unfolding e p by simp
  qed
qed

lemma ilog2_down_bounds:
  "0 < q \<Longrightarrow> q < 1 \<Longrightarrow> 2 powi ilog2_down q \<le> q \<and> q < 2 powi (ilog2_down q + 1)"
proof (induction q rule: ilog2_down.induct)
  case (1 q)
  then have q: "0 < q" "q < 1" by simp_all
  then have e: "ilog2_down q = ilog2_down (2 * q) - 1" by (subst ilog2_down.simps) simp
  have p: "2 powi (k + 1) = 2 * (2 powi k :: rat)" for k
    by (rule power_int_add_1') simp
  from p [of "ilog2_down (2 * q) - 1"]
  have p': "2 powi (ilog2_down (2 * q) - 1) = (2 powi ilog2_down (2 * q) :: rat) / 2"
    by simp
  show ?case
  proof (cases "1 \<le> 2 * q")
    case True
    then have "ilog2_down (2 * q) = 0" by (subst ilog2_down.simps) simp
    with True q show ?thesis unfolding e by simp
  next
    case False
    with q 1 have "2 powi ilog2_down (2 * q) \<le> 2 * q"
      "2 * q < 2 powi (ilog2_down (2 * q) + 1)"
      by simp_all
    then show ?thesis unfolding e p' by (simp add: p)
  qed
qed

lemma ilog2_bounds:
  assumes "0 < q"
  shows "2 powi ilog2 q \<le> q" and "q < 2 powi (ilog2 q + 1)"
  using assms ilog2_up_bounds [of q] ilog2_down_bounds [of q]
  by (auto simp: ilog2_def not_le)

lemma ilog2_unique:
  assumes "0 < q" and "2 powi e \<le> q" and "q < 2 powi (e + 1)"
  shows "ilog2 q = e"
proof -
  have "e < ilog2 q + 1"
  proof (rule ccontr)
    assume "\<not> e < ilog2 q + 1"
    then have "(2::rat) powi (ilog2 q + 1) \<le> 2 powi e"
      by (intro power_int_increasing) simp_all
    with assms(2) ilog2_bounds(2) [OF assms(1)] show False by simp
  qed
  moreover have "ilog2 q < e + 1"
  proof (rule ccontr)
    assume "\<not> ilog2 q < e + 1"
    then have "(2::rat) powi (e + 1) \<le> 2 powi ilog2 q"
      by (intro power_int_increasing) simp_all
    with assms(3) ilog2_bounds(1) [OF assms(1)] show False by simp
  qed
  ultimately show ?thesis by simp
qed

text \<open>Rounding to the nearest integer.\<close>

lemma rint_close: "\<bar>of_int (rint q) - q\<bar> \<le> 1 / 2"
proof -
  define f where "f = \<lfloor>q\<rfloor>"
  define d where "d = q - of_int f"
  have lo: "of_int f \<le> q" and hi: "q < of_int f + 1"
    unfolding f_def by linarith+
  have r: "rint q = (if d < 1 / 2 then f else if 1 / 2 < d then f + 1
                     else if even f then f else f + 1)"
    by (simp add: rint_def Let_def f_def d_def)
  show ?thesis
  proof (cases "d < 1 / 2")
    case True
    with r have "rint q = f" by simp
    with True lo show ?thesis unfolding d_def by simp
  next
    case False
    show ?thesis
    proof (cases "1 / 2 < d")
      case True
      with r False have "rint q = f + 1" by simp
      with True hi show ?thesis unfolding d_def by simp
    next
      case nt: False
      with False have "d = 1 / 2" by simp
      moreover from r False nt have "rint q = f \<or> rint q = f + 1" by simp
      ultimately show ?thesis unfolding d_def by auto
    qed
  qed
qed



lemma rint_of_int [simp]: "rint (of_int k) = k"
  by (simp add: rint_def)

lemma rint_eval:
  assumes "of_int m - 1 / 2 < q" and "q < of_int m + 1 / 2"
  shows "rint q = m"
proof -
  have "\<bar>of_int (rint q) - q\<bar> \<le> 1 / 2" by (rule rint_close)
  with assms have "of_int (rint q) < (of_int m + 1 :: rat)" "(of_int m - 1 :: rat) < of_int (rint q)"
    by linarith+
  then have "rint q < m + 1" "m - 1 < rint q"
    by (simp_all flip: of_int_less_iff [where ?'a = rat])
  then show ?thesis by simp
qed

lemma fl64_pos:
  assumes "0 < q"
  shows "fl64 q =
     (let e = max (ilog2 q) (- 1022); ulp = 2 powi (e - 52);
          r = of_int (rint (q / ulp)) * ulp
      in if 2 powi 1024 \<le> r then PInf else Fin r)"
  using assms by (simp add: fl64_def Let_def)



lemma fl64_eval:
  assumes "0 < q" and "2 powi e \<le> q" and "q < 2 powi (e + 1)" and "- 1022 \<le> e"
    and "of_int m - 1 / 2 < q / 2 powi (e - 52)" and "q / 2 powi (e - 52) < of_int m + 1 / 2"
    and "of_int m * 2 powi (e - 52) < (2 powi 1024 :: rat)"
  shows "fl64 q = Fin (of_int m * 2 powi (e - 52))"
proof -
  have "ilog2 q = e" by (rule ilog2_unique) fact+
  with assms(4) have "max (ilog2 q) (- 1022) = e" by simp
  moreover have "rint (q / 2 powi (e - 52)) = m" by (rule rint_eval) fact+
  ultimately show ?thesis
    using assms(7) by (simp add: fl64_pos [OF assms(1)] Let_def)
qed

lemma powi_less_exp:
  assumes "(2::rat) powi a < 2 powi b"
  shows "a < b"
proof (rule ccontr)
  assume "\<not> a < b"
  then have "(2::rat) powi b \<le> 2 powi a"
    by (intro power_int_increasing) simp_all
  with assms show False by simp
qed

lemma powi_split:
  assumes "e \<le> k"
  shows "(2::rat) powi k = 2 powi e * 2 ^ nat (k - e)"
proof -
  have "(2::rat) powi k = 2 powi (e + int (nat (k - e)))" using assms by simp
  also have "\<dots> = 2 powi e * 2 powi int (nat (k - e))"
    by (rule power_int_add) simp
  finally show ?thesis by (simp only: power_int_of_nat)
qed

lemma fl64_exact:
  assumes q: "q = of_int m * 2 powi k" and m: "0 < m" "m < 2 ^ 53"
    and k: "- 1074 \<le> k" "k \<le> 970"
  shows "fl64 q = Fin q"
proof -
  have p2: "0 < (2 powi k :: rat)" by simp
  from m(1) have m0: "0 < (of_int m :: rat)" by simp
  have pos: "0 < q" unfolding q using m0 p2 by (rule mult_pos_pos)
  have "(of_int m :: rat) < of_int (2 ^ 53)" using m(2) by (simp only: of_int_less_iff)
  then have m53: "(of_int m :: rat) < 2 ^ 53" by simp
  have "q < 2 ^ 53 * 2 powi k" unfolding q using m53 p2 by (rule mult_strict_right_mono)
  also have "(2::rat) ^ 53 * 2 powi k = 2 powi (53 + k)"
    by (subst power_int_add) simp_all
  finally have ub: "q < 2 powi (53 + k)" .
  from ilog2_bounds(1) [OF pos] ub have "(2::rat) powi ilog2 q < 2 powi (53 + k)"
    by (rule le_less_trans)
  then have il: "ilog2 q < 53 + k" by (rule powi_less_exp)
  define e where "e = max (ilog2 q) (- 1022)"
  from il k(1) have e: "e - 52 \<le> k" unfolding e_def by linarith
  define j where "j = nat (k - (e - 52))"
  define u :: rat where "u = 2 powi (e - 52)"
  have u0: "u \<noteq> 0" by (simp add: u_def)
  have pk: "(2::rat) powi k = u * 2 ^ j" unfolding u_def j_def using e by (rule powi_split)
  have "q / u = of_int m * 2 ^ j" unfolding q pk using u0 by simp
  then have div: "q / u = of_int (m * 2 ^ j)" by simp
  have "of_int (rint (q / u)) * u = of_int (m * 2 ^ j) * u"
    unfolding div by (simp only: rint_of_int)
  also have "\<dots> = q" unfolding q pk by simp
  finally have r: "of_int (rint (q / u)) * u = q" .
  have "(2::rat) powi (53 + k) \<le> 2 powi 1024"
    using k(2) by (intro power_int_increasing) simp_all
  with ub have no: "\<not> 2 powi 1024 \<le> q" by linarith
  have "fl64 q = (if 2 powi 1024 \<le> of_int (rint (q / u)) * u then PInf
                  else Fin (of_int (rint (q / u)) * u))"
    unfolding fl64_pos [OF pos] Let_def e_def u_def ..
  then show ?thesis unfolding r using no by simp
qed

lemma fl64_of_int:
  assumes "0 \<le> n" and "n < 2 ^ 53"
  shows "fl64 (of_int n) = Fin (of_int n)"
proof (cases "n = 0")
  case True
  then show ?thesis by (simp add: fl64_def)
next
  case False
  with assms have "0 < n" by simp
  moreover have "(of_int n :: rat) = of_int n * 2 powi 0" by simp
  ultimately show ?thesis
    using assms(2) by (intro fl64_exact [where m = n and k = 0]) simp_all
qed

lemma fl64_100: "fl64 100 = Fin 100"
  using fl64_of_int [of 100] by simp



text \<open>The three float operations behind one vote share, step by step.\<close>

lemma share_steps:
  assumes "0 \<le> s" and "s < 2 ^ 53" and "0 < T" and "T < 2 ^ 53"
    and d: "fl64 (of_int s / of_int T) = Fin d"
    and p: "fl64 (d * 100) = Fin p"
    and y: "fl64 (p * 100) = Fin y"
  shows "fl_round 2 (fl_mul (truediv s T) (Fin 100)) = fl64 (of_int (rint y) / 100)"
proof -
  from assms have cs: "fl64 (of_int s) = Fin (of_int s)" by (intro fl64_of_int) simp_all
  from assms have cT: "fl64 (of_int T) = Fin (of_int T)" by (intro fl64_of_int) simp_all
  from assms(3) have "truediv s T = Fin d"
    by (simp add: truediv_def cs cT d)
  then have "fl_mul (truediv s T) (Fin 100) = Fin p"
    by (simp add: p)
  then show ?thesis
    by (simp add: fl_round_def fl64_100 y)
qed

text \<open>A half, 50 and 5000 are binary64 values.\<close>

lemma fl64_half: "fl64 (1 / 2) = Fin (1 / 2)"
  by (rule fl64_exact [where m = 1 and k = "- 1"]) simp_all

lemma fl64_50: "fl64 50 = Fin 50"
  using fl64_of_int [of 50] by simp

lemma fl64_5000: "fl64 5000 = Fin 5000"
  using fl64_of_int [of 5000] by simp

lemma share_half: "fl_round 2 (fl_mul (truediv 150 300) (Fin 100)) = Fin 50"
proof -
  have "fl_round 2 (fl_mul (truediv 150 300) (Fin 100)) = fl64 (of_int (rint 5000) / 100)"
    by (rule share_steps [where d = "1 / 2" and p = 50]) (simp_all add: fl64_half fl64_50 fl64_5000)
  also have "rint 5000 = 5000" using rint_of_int [of 5000] by simp
  finally show ?thesis by (simp add: fl64_50)
qed



text \<open>
  23 of 160 votes: the exact share is 14.375, the share in binary64 is
  14.374999999999998, and it rounds to 14.37.
\<close>

lemma share_23_of_160:
  "fl_round 2 (fl_mul (truediv 23 160) (Fin 100)) = fl64 (1437 / 100)"
proof -
  have d: "fl64 (of_int 23 / of_int 160) = Fin (of_int 5179139571476070 * 2 powi (- 3 - 52))"
    by (rule fl64_eval) simp_all
  have p: "fl64 (of_int 5179139571476070 * 2 powi (- 3 - 52) * 100) =
           Fin (of_int 8092405580431359 * 2 powi (3 - 52))"
    by (rule fl64_eval) simp_all
  have y: "fl64 (of_int 8092405580431359 * 2 powi (3 - 52) * 100) =
           Fin (of_int 6322191859711999 * 2 powi (10 - 52))"
    by (rule fl64_eval) simp_all
  have r: "rint (of_int 6322191859711999 * 2 powi (10 - 52)) = 1437"
    by (rule rint_eval) simp_all
  have "fl_round 2 (fl_mul (truediv 23 160) (Fin 100)) =
        fl64 (of_int (rint (of_int 6322191859711999 * 2 powi (10 - 52))) / 100)"
    by (rule share_steps [OF _ _ _ _ d p y]) simp_all
  then show ?thesis unfolding r by simp
qed

subsection \<open>The scenario\<close>

text \<open>
  C7. On the rows (C1, X, PartyA, 100), (C1, Y, PartyB, 150), (C2, Z, PartyA, 50) the
  totals per party are PartyA: sum 150, mean 75, count 2, share 50.00 and PartyB:
  sum 150, mean 150, count 1, share 50.00; the rows of constituency C1 are the first two
  rows, and the leading party of that subset is PartyB.
\<close>

theorem scenario_results:
  "party_totals scenario_data =
     [\<lparr>pt_Party = ''PartyA'', pt_Total_Votes = 150, pt_Average_Votes = Fin 75,
       pt_Constituencies = 2, pt_Vote_Share = Fin 50\<rparr>,
      \<lparr>pt_Party = ''PartyB'', pt_Total_Votes = 150, pt_Average_Votes = Fin 150,
       pt_Constituencies = 1, pt_Vote_Share = Fin 50\<rparr>] \<and>
   const_data scenario_data ''C1'' = [scenario_data ! 0, scenario_data ! 1] \<and>
   len (const_data scenario_data ''C1'') = 2 \<and>
   leading_party (const_data scenario_data ''C1'') = Inr ''PartyB''"
proof -
  have u: "sort (unique (col Party scenario_data)) = [''PartyA'', ''PartyB'']"
    by (simp add: scenario_data_eq unique_def)
  have g: "groupby_agg scenario_data =
     [(''PartyA'', 150, Fin 75, 2), (''PartyB'', 150, Fin 150, 1)]"
    unfolding groupby_agg_def u
    by (simp add: scenario_data_eq series_sum_def series_mean_def len_def int64_def)
  have "party_totals scenario_data =
     [\<lparr>pt_Party = ''PartyA'', pt_Total_Votes = 150, pt_Average_Votes = Fin 75,
       pt_Constituencies = 2, pt_Vote_Share = Fin 50\<rparr>,
      \<lparr>pt_Party = ''PartyB'', pt_Total_Votes = 150, pt_Average_Votes = Fin 150,
       pt_Constituencies = 1, pt_Vote_Share = Fin 50\<rparr>]"
    unfolding party_totals_def with_vote_share_def g
    by (simp add: int64_def share_half)
  moreover have c: "const_data scenario_data ''C1'' = [scenario_data ! 0, scenario_data ! 1]"
    by (simp add: const_data_filter scenario_data_eq)
  moreover have "len (const_data scenario_data ''C1'') = 2"
    by (simp add: c len_def)
  moreover have "leading_party (const_data scenario_data ''C1'') = Inr ''PartyB''"
    by (simp add: const_data_filter scenario_data_eq leading_party_def loc_def)
  ultimately show ?thesis by simp
qed

subsection \<open>The totals per party and the vote shares\<close>















subsection \<open>The two selectors\<close>

text \<open>
  C10. The options of the constituency selector are exactly the constituency values
  that occur in the loaded table. So for every selectable constituency the filtered
  frame \<^verbatim>\<open>const_data\<close> is non-empty and the metrics of tab 2 (count, sum, leading
  party) are computed without an exception. The party selector gives no such guarantee:
  its options are the four keys of \<^verbatim>\<open>PARTY_COLORS\<close>, and there is a non-empty table and
  an option of the party selector for which \<^verbatim>\<open>party_data\<close> is empty and the metrics of
  tab 1 raise ValueError.
\<close>

theorem constituency_selection_nonempty:
  "set (constituencies data) = (\<lambda>x. Constituency (snd x)) ` set data \<and>
   (\<forall>c \<in> set (constituencies data).
      const_data data c \<noteq> [] \<and> (\<exists>m. tab2_metrics (const_data data c) = Inr m)) \<and>
   (\<exists>file p. file \<noteq> [] \<and> p \<in> set party_options \<and>
      party_data (load_data file) p = [] \<and>
      tab1_metrics (party_data (load_data file) p) = Inl ValueError)"
proof -
  have 1: "set (constituencies data) = (\<lambda>x. Constituency (snd x)) ` set data"
    by (rule set_constituencies)
  have 2: "\<forall>c \<in> set (constituencies data).
      const_data data c \<noteq> [] \<and> (\<exists>m. tab2_metrics (const_data data c) = Inr m)"
  proof
    fix c
    assume "c \<in> set (constituencies data)"
    with 1 obtain x where "x \<in> set data" and "Constituency (snd x) = c" by auto
    then have ne: "const_data data c \<noteq> []"
      by (force simp: const_data_filter filter_empty_conv)
    from tab2_metrics_nonempty [OF ne]
    have "\<exists>m. tab2_metrics (const_data data c) = Inr m" by blast
    with ne show "const_data data c \<noteq> [] \<and> (\<exists>m. tab2_metrics (const_data data c) = Inr m)"
      by simp
  qed
  have e: "party_data (load_data scenario_rows) ''Telugu Desam'' = []"
    using scenario_data_eq by (simp add: scenario_data_def party_data_filter)
  have "scenario_rows \<noteq> [] \<and> ''Telugu Desam'' \<in> set party_options \<and>
      party_data (load_data scenario_rows) ''Telugu Desam'' = [] \<and>
      tab1_metrics (party_data (load_data scenario_rows) ''Telugu Desam'') = Inl ValueError"
    unfolding e
    by (simp add: scenario_rows_def party_options_def PARTY_COLORS_def tab1_metrics_def
        series_mean_def)
  then have 3: "\<exists>file p. file \<noteq> [] \<and> p \<in> set party_options \<and>
      party_data (load_data file) p = [] \<and>
      tab1_metrics (party_data (load_data file) p) = Inl ValueError"
    by blast
  from 1 2 3 show ?thesis by blast
qed

theorem constituency_selection_nonempty_witness:
  "''C1'' \<in> set (constituencies scenario_data) \<and>
   constituencies scenario_data = [''C1'', ''C2''] \<and>
   const_data scenario_data ''C1'' \<noteq> [] \<and>
   (\<exists>m. tab2_metrics (const_data scenario_data ''C1'') = Inr m)"
proof -
  have c: "constituencies scenario_data = [''C1'', ''C2'']"
    by (simp add: constituencies_def sorted_py_def unique_def scenario_data_eq)
  then have h: "''C1'' \<in> set (constituencies scenario_data)" by simp
  from constituency_selection_nonempty [of scenario_data] h
  have "const_data scenario_data ''C1'' \<noteq> [] \<and>
   (\<exists>m. tab2_metrics (const_data scenario_data ''C1'') = Inr m)"
    by blast
  with c h show ?thesis by blast
qed

subsection \<open>No operation changes its input table\<close>

lemma frame_at_append:
  "frame_at h a = Some df \<Longrightarrow> frame_at (h @ xs) a = Some df"
  by (auto simp: frame_at_def nth_append split: if_splits)

lemma frame_at_alloc: "frame_at (h @ [DataFrame df]) (length h) = Some df"
  by (simp add: frame_at_def)

lemma frame_at_lt: "frame_at h a = Some df \<Longrightarrow> a < length h"
  by (simp add: frame_at_def split: if_splits)

lemma filtered_st:
  assumes "frame_at h d = Some df"
  shows "\<exists>a h'. (case getitem_mask_st h d (\<lambda>df. series_eq (col c df) v) of
                    None \<Rightarrow> None | Some (a, h') \<Rightarrow> copy_st h' a) = Some (a, h') \<and>
     take (length h) h' = h \<and> length h \<le> a \<and>
     frame_at h' a = Some (filter (\<lambda>(i, r). c r = v) df) \<and> frame_at h' d = Some df"
proof -
  let ?f = "filter (\<lambda>(i, r). c r = v) df"
  let ?h1 = "h @ [DataFrame ?f]"
  let ?h2 = "?h1 @ [DataFrame ?f]"
  from assms have 1: "getitem_mask_st h d (\<lambda>df. series_eq (col c df) v) = Some (length h, ?h1)"
    by (simp add: getitem_mask_st_def alloc_def getitem_mask_series_eq)
  have "frame_at ?h1 (length h) = Some ?f" by (rule frame_at_alloc)
  then have 2: "copy_st ?h1 (length h) = Some (length ?h1, ?h2)"
    by (simp add: copy_st_def alloc_def copy_def)
  have 3: "frame_at ?h2 (length ?h1) = Some ?f" by (rule frame_at_alloc)
  from assms have 4: "frame_at ?h2 d = Some df"
    by (intro frame_at_append)
  have 5: "take (length h) ?h2 = h" by simp
  from 1 2 3 4 5 show ?thesis by simp
qed

lemma party_totals_st_result:
  assumes "frame_at h d = Some df"
  shows "party_totals_st h d = Some (length h, h @ [TotalsFrame (party_totals df)])"
  using assms
  by (simp add: party_totals_st_def groupby_agg_st_def alloc_def setitem_vote_share_st_def
      party_totals_def)

text \<open>
  C9. Let \<open>d\<close> be the address of a table \<open>df\<close> in the store \<open>h\<close>. Each of the two
  filters and the aggregation per party returns the address of an object that did not
  exist in \<open>h\<close> (a newly constructed table, holding the value the operation computes) and
  a store in which every object of \<open>h\<close>, the input table among them, is unchanged; the
  summary metrics and the leading party return the store \<open>h\<close> itself.
\<close>

theorem operations_do_not_mutate:
  assumes "frame_at h d = Some df"
  shows "(\<exists>a h'. party_data_st h d p = Some (a, h') \<and> take (length h) h' = h \<and>
            length h \<le> a \<and> frame_at h' a = Some (party_data df p) \<and>
            frame_at h' d = Some df) \<and>
         (\<exists>a h'. const_data_st h d c = Some (a, h') \<and> take (length h) h' = h \<and>
            length h \<le> a \<and> frame_at h' a = Some (const_data df c) \<and>
            frame_at h' d = Some df) \<and>
         tab1_metrics_st h d = Some (tab1_metrics df, h) \<and>
         tab2_metrics_st h d = Some (tab2_metrics df, h) \<and>
         leading_party_st h d = Some (leading_party df, h) \<and>
         (\<exists>a h'. party_totals_st h d = Some (a, h') \<and> take (length h) h' = h \<and>
            length h \<le> a \<and> a < length h' \<and> h' ! a = TotalsFrame (party_totals df) \<and>
            frame_at h' d = Some df)"
proof -
  from filtered_st [OF assms, of Party p]
  have 1: "\<exists>a h'. party_data_st h d p = Some (a, h') \<and> take (length h) h' = h \<and>
            length h \<le> a \<and> frame_at h' a = Some (party_data df p) \<and>
            frame_at h' d = Some df"
    by (simp add: party_data_st_def party_data_filter)
  from filtered_st [OF assms, of Constituency c]
  have 2: "\<exists>a h'. const_data_st h d c = Some (a, h') \<and> take (length h) h' = h \<and>
            length h \<le> a \<and> frame_at h' a = Some (const_data df c) \<and>
            frame_at h' d = Some df"
    by (simp add: const_data_st_def const_data_filter)
  from assms have 3: "tab1_metrics_st h d = Some (tab1_metrics df, h)"
    "tab2_metrics_st h d = Some (tab2_metrics df, h)"
    "leading_party_st h d = Some (leading_party df, h)"
    by (simp_all add: tab1_metrics_st_def tab2_metrics_st_def leading_party_st_def)
  from assms have "frame_at (h @ [TotalsFrame (party_totals df)]) d = Some df"
    by (rule frame_at_append)
  then have 4: "\<exists>a h'. party_totals_st h d = Some (a, h') \<and> take (length h) h' = h \<and>
            length h \<le> a \<and> a < length h' \<and> h' ! a = TotalsFrame (party_totals df) \<and>
            frame_at h' d = Some df"
    by (simp add: party_totals_st_result [OF assms])
  from 1 2 3 4 show ?thesis by blast
qed

text \<open>On the store of the scenario, whose only object is the loaded table.\<close>

theorem operations_do_not_mutate_witness:
  "frame_at scenario_store 0 = Some scenario_data \<and>
   (\<exists>a h'. party_data_st scenario_store 0 ''PartyA'' = Some (a, h') \<and>
      take 1 h' = scenario_store \<and> 1 \<le> a \<and>
      frame_at h' a = Some [scenario_data ! 0, scenario_data ! 2] \<and>
      frame_at h' 0 = Some scenario_data) \<and>
   (\<exists>a h'. party_totals_st scenario_store 0 = Some (a, h') \<and>
      take 1 h' = scenario_store \<and> 1 \<le> a \<and>
      h' ! a = TotalsFrame (party_totals scenario_data) \<and>
      frame_at h' 0 = Some scenario_data)"
proof -
  have h: "frame_at scenario_store 0 = Some scenario_data"
    by (simp add: scenario_store_def frame_at_def)
  have l: "length scenario_store = 1" by (simp add: scenario_store_def)
  have f: "party_data scenario_data ''PartyA'' = [scenario_data ! 0, scenario_data ! 2]"
    by (simp add: party_data_filter scenario_data_eq)
  from operations_do_not_mutate [OF h, of "''PartyA''" "''C1''"]
  show ?thesis unfolding l f using h by blast
qed

end
